theory Spec2Isabelle
  imports Main "HOL-Library.Sublist" "HOL-Library.AList"
begin

section \<open>Strings\<close>

text \<open>
  A JavaScript string is modelled as a \<^typ>\<open>string\<close> holding its UTF-8 bytes. The
  operations the program applies to strings (comparison with \<open>===\<close>, \<open>split("/")\<close>,
  replacement of the ASCII characters \<open>@\<close>, \<open>/\<close>, \<open>-\<close>, concatenation, \<open>trim\<close>) act on
  well-formed text the same way on bytes as on UTF-16 code units, because an ASCII byte
  never occurs inside a multi-byte sequence.
\<close>

text \<open>
  \<open>s.split(sep)\<close> for a one-character separator. The result is never empty:
  \<open>"".split("/")\<close> is \<open>[""]\<close>.
\<close>

fun js_split :: "char \<Rightarrow> string \<Rightarrow> string list" where
  "js_split sep [] = [[]]"
| "js_split sep (c # cs) =
     (if c = sep then [] # js_split sep cs
      else (case js_split sep cs of
              [] \<Rightarrow> [[c]]
            | w # ws \<Rightarrow> (c # w) # ws))"

text \<open>\<open>parts.join(sep)\<close>.\<close>

fun js_join :: "string \<Rightarrow> string list \<Rightarrow> string" where
  "js_join sep [] = []"
| "js_join sep [x] = x"
| "js_join sep (x # y # ys) = x @ sep @ js_join sep (y # ys)"

text \<open>
  The characters that \<open>String.prototype.trim\<close> strips (ECMAScript WhiteSpace and
  LineTerminator), each as its UTF-8 encoding: TAB, LF, VT, FF, CR, SPACE, U+00A0, U+1680,
  U+2000 to U+200A, U+2028, U+2029, U+202F, U+205F, U+3000, U+FEFF.
\<close>

definition js_whitespace :: "string list" where
  "js_whitespace =
     [[CHR 0x09], [CHR 0x0A], [CHR 0x0B], [CHR 0x0C], [CHR 0x0D], [CHR 0x20],
      [CHR 0xC2, CHR 0xA0],
      [CHR 0xE1, CHR 0x9A, CHR 0x80],
      [CHR 0xE2, CHR 0x80, CHR 0x80], [CHR 0xE2, CHR 0x80, CHR 0x81],
      [CHR 0xE2, CHR 0x80, CHR 0x82], [CHR 0xE2, CHR 0x80, CHR 0x83],
      [CHR 0xE2, CHR 0x80, CHR 0x84], [CHR 0xE2, CHR 0x80, CHR 0x85],
      [CHR 0xE2, CHR 0x80, CHR 0x86], [CHR 0xE2, CHR 0x80, CHR 0x87],
      [CHR 0xE2, CHR 0x80, CHR 0x88], [CHR 0xE2, CHR 0x80, CHR 0x89],
      [CHR 0xE2, CHR 0x80, CHR 0x8A],
      [CHR 0xE2, CHR 0x80, CHR 0xA8], [CHR 0xE2, CHR 0x80, CHR 0xA9],
      [CHR 0xE2, CHR 0x80, CHR 0xAF],
      [CHR 0xE2, CHR 0x81, CHR 0x9F],
      [CHR 0xE3, CHR 0x80, CHR 0x80],
      [CHR 0xEF, CHR 0xBB, CHR 0xBF]]"

function js_trimStart :: "string \<Rightarrow> string" where
  "js_trimStart s =
     (case find (\<lambda>w. prefix w s) js_whitespace of
        None \<Rightarrow> s
      | Some w \<Rightarrow> if w = [] then s else js_trimStart (drop (length w) s))"
  by pat_completeness auto
termination
proof (relation "measure length")
  show "wf (measure length)" by simp
next
  fix s :: string and w :: string
  assume "find (\<lambda>w. prefix w s) js_whitespace = Some w" and "w \<noteq> []"
  then have "prefix w s" and "w \<noteq> []"
    by (auto simp: find_Some_iff)
  then have "length s \<noteq> 0"
    by auto
  with \<open>w \<noteq> []\<close> show "(drop (length w) s, s) \<in> measure length"
    by simp
qed

declare js_trimStart.simps [simp del]

function js_trimEnd :: "string \<Rightarrow> string" where
  "js_trimEnd s =
     (case find (\<lambda>w. suffix w s) js_whitespace of
        None \<Rightarrow> s
      | Some w \<Rightarrow> if w = [] then s else js_trimEnd (take (length s - length w) s))"
  by pat_completeness auto
termination
proof (relation "measure length")
  show "wf (measure length)" by simp
next
  fix s :: string and w :: string
  assume "find (\<lambda>w. suffix w s) js_whitespace = Some w" and "w \<noteq> []"
  then have "suffix w s" and "w \<noteq> []"
    by (auto simp: find_Some_iff)
  then have "length s \<noteq> 0"
    by auto
  with \<open>w \<noteq> []\<close> show "(take (length s - length w) s, s) \<in> measure length"
    by simp
qed

declare js_trimEnd.simps [simp del]

definition js_trim :: "string \<Rightarrow> string" where
  "js_trim s = js_trimEnd (js_trimStart s)"

section \<open>Projects\<close>

text \<open>
  The element type of \<open>WorkspaceProjects\<close>: the object that the \<open>map\<close> callback of
  \<open>getPnpmWorkspaceProjects\<close> returns.
\<close>

record project =
  name :: string
  namespacePrefix :: string
  path :: string
  dependencies :: "string list"
  devDependencies :: "string list"
  description :: "string option"

text \<open>\<open>path.split("/")[0]\<close>; the split of a string is never empty.\<close>

definition first_segment :: "string \<Rightarrow> string" where
  "first_segment p = (case js_split CHR ''/'' p of [] \<Rightarrow> [] | s # _ \<Rightarrow> s)"

section \<open>Identifier sanitization\<close>

text \<open>\<open>s.replace(/[@/-]/g, "_")\<close>: every \<open>@\<close>, \<open>/\<close> and \<open>-\<close> becomes \<open>_\<close>.\<close>

definition sanitizeMermaid :: "string \<Rightarrow> string" where
  "sanitizeMermaid s =
     map (\<lambda>c. if c = CHR ''@'' \<or> c = CHR ''/'' \<or> c = CHR ''-'' then CHR ''_'' else c) s"

section \<open>Errors\<close>

text \<open>
  A thrown value: \<open>new Error(message)\<close>, a \<open>TypeError\<close> raised by the runtime, or an
  exception of an external call (\<open>execSync\<close>, \<open>JSON.parse\<close>, \<open>fs.readFileSync\<close>).
\<close>

datatype error = Error string | TypeError string | ExternalFailure

section \<open>Dependency graph\<close>

text \<open>
  \<open>subgraphs\<close> is a plain object used as a dictionary from first path segment to the
  projects below it. It is modelled as the list of its own properties in insertion order.
  Reading \<open>subgraphs[k]\<close> for a key that is not an own property falls through to
  \<open>Object.prototype\<close>: for the property names below the read yields a function (or, for
  \<open>__proto__\<close>, the prototype object), which is truthy and has no \<open>push\<close>, so
  \<open>subgraphs[k].push(project)\<close> throws a \<open>TypeError\<close>.
\<close>

definition object_prototype_keys :: "string list" where
  "object_prototype_keys =
     [''constructor'', ''__defineGetter__'', ''__defineSetter__'', ''hasOwnProperty'',
      ''__lookupGetter__'', ''__lookupSetter__'', ''isPrototypeOf'',
      ''propertyIsEnumerable'', ''toString'', ''valueOf'', ''__proto__'',
      ''toLocaleString'']"

text \<open>One iteration of the grouping loop (\<open>for (const project of projects)\<close>, first loop).\<close>

definition group_step ::
  "(string \<times> project list) list \<Rightarrow> project \<Rightarrow> error + (string \<times> project list) list" where
  "group_step subgraphs project =
     (let subgraph = first_segment (path project) in
      if subgraph = [] then Inr subgraphs
      else (case map_of subgraphs subgraph of
              Some sProjects \<Rightarrow> Inr (AList.update subgraph (sProjects @ [project]) subgraphs)
            | None \<Rightarrow>
                if subgraph \<in> set object_prototype_keys
                then Inl (TypeError ''subgraphs[subgraph].push is not a function'')
                else Inr (subgraphs @ [(subgraph, [project])])))"

fun group_projects ::
  "(string \<times> project list) list \<Rightarrow> project list \<Rightarrow> error + (string \<times> project list) list" where
  "group_projects subgraphs [] = Inr subgraphs"
| "group_projects subgraphs (project # rest) =
     (case group_step subgraphs project of
        Inl e \<Rightarrow> Inl e
      | Inr subgraphs' \<Rightarrow> group_projects subgraphs' rest)"

text \<open>
  \<open>Object.entries\<close> enumerates the own properties whose key is an array index (a
  canonical decimal numeral below \<open>2^32 - 1\<close>) first, in ascending numeric order, and then
  the other string keys in insertion order.
\<close>

definition digit_value :: "char \<Rightarrow> int" where
  "digit_value c = of_char c - of_char CHR ''0''"

definition decimal_value :: "string \<Rightarrow> int" where
  "decimal_value s = foldl (\<lambda>n c. 10 * n + digit_value c) 0 s"

definition is_array_index :: "string \<Rightarrow> bool" where
  "is_array_index s =
     (s \<noteq> [] \<and> list_all (\<lambda>c. c \<in> set ''0123456789'') s \<and>
      (s = ''0'' \<or> hd s \<noteq> CHR ''0'') \<and> decimal_value s < 2 ^ 32 - 1)"

definition object_entries :: "(string \<times> 'v) list \<Rightarrow> (string \<times> 'v) list" where
  "object_entries props =
     sort_key (\<lambda>kv. decimal_value (fst kv)) (filter (\<lambda>kv. is_array_index (fst kv)) props) @
     filter (\<lambda>kv. \<not> is_array_index (fst kv)) props"

text \<open>The line that the \<open>sProjects.forEach\<close> callback appends for one member.\<close>

definition node_declaration :: "project \<Rightarrow> string" where
  "node_declaration project =
     ''     '' @ sanitizeMermaid (name project) @ [CHR ''['', CHR 0x22] @ name project @
     [CHR 0x22, CHR '']'', CHR 0x0A]"

text \<open>The text appended for one entry of \<open>subgraphs\<close> (second loop).\<close>

definition subgraph_block :: "string \<times> project list \<Rightarrow> string" where
  "subgraph_block entry =
     ''  subgraph '' @ fst entry @ [CHR 0x0A] @
     concat (map node_declaration (snd entry)) @
     ''  end'' @ [CHR 0x0A]"

text \<open>
  A \<open>Set<string>\<close> is the list of its elements in insertion order; \<open>add\<close> appends an
  element that is not yet present.
\<close>

definition set_add :: "string list \<Rightarrow> string \<Rightarrow> string list" where
  "set_add s x = (if x \<in> set s then s else s @ [x])"

text \<open>
  The \<open>map\<close> callback over a project's dependency names: the first path segment of the
  first project with that name, or \<open>""\<close> when there is none.
\<close>

definition resolve_dependency :: "project list \<Rightarrow> string \<Rightarrow> string" where
  "resolve_dependency projects dep =
     (case find (\<lambda>p. name p = dep) projects of
        None \<Rightarrow> []
      | Some depProject \<Rightarrow> first_segment (path depProject))"

text \<open>
  One iteration of the third loop. \<open>subgraphDependencies\<close> is a \<open>Map\<close>: the list of its
  entries in insertion order, where \<open>set\<close> on a present key keeps the key's position.
\<close>

definition dependency_step ::
  "project list \<Rightarrow> (string \<times> string list) list \<Rightarrow> project \<Rightarrow> (string \<times> string list) list" where
  "dependency_step projects subgraphDeps project =
     (if path project = [] then subgraphDeps
      else
        let currentSubgraph = first_segment (path project);
            currentSet = (case map_of subgraphDeps currentSubgraph of
                            Some s \<Rightarrow> s | None \<Rightarrow> []);
            allSubgraphDependencies =
              map (resolve_dependency projects) (dependencies project @ devDependencies project)
        in AList.update currentSubgraph (foldl set_add currentSet allSubgraphDependencies)
             subgraphDeps)"

definition subgraphDependencies :: "project list \<Rightarrow> (string \<times> string list) list" where
  "subgraphDependencies projects = foldl (dependency_step projects) [] projects"

text \<open>
  The targets of the edge statement of one entry:
  \<open>[...dependencies].filter((x) => x && x !== subgraph)\<close>.
\<close>

definition edge_targets :: "string \<times> string list \<Rightarrow> string list" where
  "edge_targets entry = filter (\<lambda>x. x \<noteq> [] \<and> x \<noteq> fst entry) (snd entry)"

text \<open>The text that the \<open>subgraphDependencies.forEach\<close> callback appends for one entry.\<close>

definition edge_statement :: "string \<times> string list \<Rightarrow> string" where
  "edge_statement entry =
     (let deps = js_trim (js_join '' & '' (edge_targets entry)) in
      if deps \<noteq> [] then ''  '' @ fst entry @ '' --> '' @ deps @ [CHR 0x0A] else [])"

definition generateDependencyGraph :: "project list \<Rightarrow> error + string" where
  "generateDependencyGraph projects =
     (case group_projects [] projects of
        Inl e \<Rightarrow> Inl e
      | Inr subgraphs \<Rightarrow>
          Inr (''```mermaid'' @ [CHR 0x0A] @
               (''graph TD'' @ [CHR 0x0A] @
                concat (map subgraph_block (object_entries subgraphs)) @
                concat (map edge_statement (subgraphDependencies projects))) @
               ''```''))"

section \<open>Path tree\<close>

text \<open>
  The type \<open>Node\<close>. \<open>inner\<close> and \<open>projectName\<close> may be \<open>undefined\<close>. The nodes form a
  tree without sharing: every node object is created once and pushed to exactly one child
  list, so the in-place updates of the source are updates of the one place in the tree.
\<close>

datatype node =
  Node (name: string) (inner: "node list option") (projectName: "string option") (root: bool)

text \<open>
  The inner loop of \<open>createNodeTree\<close> (\<open>for (const part of parts)\<close>), started in the child
  list \<open>current\<close>. \<open>current.find\<close> takes the first child with the name of the part. When
  there is one, its \<open>inner\<close> is initialised if need be and the loop goes on there. When
  there is none, a new node is pushed at the end of \<open>current\<close> and the loop goes on in
  its empty \<open>inner\<close>, where every later part creates a node as well: so \<open>leaf\<close>, the last
  node created, is the node of the last part, and it is the one that gets \<open>projectName\<close>
  after the loop. When the loop creates no node, \<open>leaf\<close> stays \<open>null\<close> and no
  \<open>projectName\<close> is set.
\<close>

fun insert_parts :: "project \<Rightarrow> string list \<Rightarrow> node list \<Rightarrow> node list" where
  "insert_parts project [] current = current"
| "insert_parts project (part # rest) [] =
     [Node part (Some (insert_parts project rest []))
        (if rest = [] then Some (project.name project) else None)
        (path project = [])]"
| "insert_parts project (part # rest) (c # cs) =
     (if node.name c = part
      then Node (node.name c)
             (Some (insert_parts project rest (case inner c of None \<Rightarrow> [] | Some kids \<Rightarrow> kids)))
             (projectName c) (root c) # cs
      else c # insert_parts project (part # rest) cs)"

text \<open>
  One iteration of the outer loop. \<open>current\<close> starts as \<open>tree\<close> itself only while the
  tree is empty; afterwards it starts as the child list of the first top-level node
  (\<open>tree[0].inner ?? []\<close>, where the fallback array is not part of the tree).
\<close>

definition tree_step :: "node list \<Rightarrow> project \<Rightarrow> node list" where
  "tree_step tree project =
     (let parts = js_split CHR ''/'' (path project) in
      case tree of
        [] \<Rightarrow> insert_parts project parts tree
      | t # ts \<Rightarrow>
          (case inner t of
             None \<Rightarrow> tree
           | Some current \<Rightarrow>
               Node (node.name t) (Some (insert_parts project parts current))
                 (projectName t) (root t) # ts))"

definition createNodeTree :: "project list \<Rightarrow> node list" where
  "createNodeTree projects = foldl tree_step [] projects"

section \<open>Tree rendering\<close>

text \<open>
  The connectors, as UTF-8: U+2514 U+2500 U+2500 SPACE, U+251C U+2500 U+2500 SPACE, and
  U+2502 followed by three spaces.
\<close>

definition corner_connector :: string where
  "corner_connector =
     [CHR 0xE2, CHR 0x94, CHR 0x94, CHR 0xE2, CHR 0x94, CHR 0x80, CHR 0xE2, CHR 0x94, CHR 0x80,
      CHR 0x20]"

definition branch_connector :: string where
  "branch_connector =
     [CHR 0xE2, CHR 0x94, CHR 0x9C, CHR 0xE2, CHR 0x94, CHR 0x80, CHR 0xE2, CHR 0x94, CHR 0x80,
      CHR 0x20]"

definition vertical_guide :: string where
  "vertical_guide = [CHR 0xE2, CHR 0x94, CHR 0x82, CHR 0x20, CHR 0x20, CHR 0x20]"

text \<open>
  \<open>renderTree\<close>: the loop over \<open>nodes\<close> is the recursion over the list, and the node at
  hand is the last item exactly when no node follows it. The parameter \<open>prefix\<close> of the
  source is called \<open>indent\<close> here.
\<close>

fun renderTree :: "node list \<Rightarrow> string \<Rightarrow> string" where
  "renderTree [] indent = []"
| "renderTree (Node nm inn pn rt # rest) indent =
     (let isLastItem = (rest = []);
          connector = (if isLastItem then corner_connector else branch_connector)
      in (if rt
          then indent @ (case pn of Some n \<Rightarrow> n | None \<Rightarrow> ''(root)'') @ [CHR 0x0A]
          else indent @ connector @ nm @ [CHR 0x0A]) @
         (case inn of
            None \<Rightarrow> []
          | Some kids \<Rightarrow>
              if kids \<noteq> []
              then renderTree kids
                     (indent @ (if isLastItem then (if rt then [] else ''    '')
                                else vertical_guide))
              else []) @
         renderTree rest indent)"

definition generateFolderTree :: "node list \<Rightarrow> string" where
  "generateFolderTree tree = ''```'' @ [CHR 0x0A] @ renderTree tree [] @ ''```''"

section \<open>Project discovery\<close>

text \<open>
  A value produced by \<open>JSON.parse\<close>. An object is the list of its properties in enumeration
  order, with pairwise distinct keys. No schema of the program accepts or inspects a
  number, so the type of numbers is a parameter.
\<close>

datatype 'n json =
  JNull | JBool bool | JNumber 'n | JString string | JArray "'n json list" |
  JObject "(string \<times> 'n json) list"

text \<open>
  The \<open>zod\<close> schemas, as predicates that say whether \<open>safeParse\<close> succeeds. A schema for a
  property is applied to the property's value if the key is present (\<open>Some\<close>) and to
  \<open>undefined\<close> otherwise (\<open>None\<close>). \<open>z.object\<close> ignores unknown keys.
\<close>

definition z_string :: "'n json option \<Rightarrow> bool" where
  "z_string v = (case v of Some (JString s) \<Rightarrow> True | _ \<Rightarrow> False)"

definition z_string_min1 :: "'n json option \<Rightarrow> bool" where
  "z_string_min1 v = (case v of Some (JString s) \<Rightarrow> s \<noteq> [] | _ \<Rightarrow> False)"

definition z_boolean :: "'n json option \<Rightarrow> bool" where
  "z_boolean v = (case v of Some (JBool b) \<Rightarrow> True | _ \<Rightarrow> False)"

definition z_optional :: "('n json option \<Rightarrow> bool) \<Rightarrow> 'n json option \<Rightarrow> bool" where
  "z_optional schema v = (case v of None \<Rightarrow> True | Some x \<Rightarrow> schema v)"

definition z_record :: "('n json option \<Rightarrow> bool) \<Rightarrow> 'n json option \<Rightarrow> bool" where
  "z_record schema v =
     (case v of Some (JObject props) \<Rightarrow> list_all (\<lambda>kv. schema (Some (snd kv))) props | _ \<Rightarrow> False)"

text \<open>\<open>z.object({ version: z.string(), from: z.string(), path: z.string() })\<close>.\<close>

definition dependencyEntrySchema :: "'n json option \<Rightarrow> bool" where
  "dependencyEntrySchema v =
     (case v of
        Some (JObject props) \<Rightarrow>
          z_string (map_of props ''version'') \<and> z_string (map_of props ''from'') \<and>
          z_string (map_of props ''path'')
      | _ \<Rightarrow> False)"

text \<open>The element schema of \<open>WorkspaceProjectSchema\<close>, and the schema of the array.\<close>

definition workspaceProjectEntry :: "'n json \<Rightarrow> bool" where
  "workspaceProjectEntry v =
     (case v of
        JObject props \<Rightarrow>
          z_string_min1 (map_of props ''name'') \<and>
          z_optional z_string (map_of props ''version'') \<and>
          z_string_min1 (map_of props ''path'') \<and>
          z_optional z_boolean (map_of props ''private'') \<and>
          z_optional (z_record dependencyEntrySchema) (map_of props ''dependencies'') \<and>
          z_optional (z_record dependencyEntrySchema) (map_of props ''devDependencies'')
      | _ \<Rightarrow> False)"

definition WorkspaceProjectSchema :: "'n json \<Rightarrow> bool" where
  "WorkspaceProjectSchema v =
     (case v of JArray entries \<Rightarrow> list_all workspaceProjectEntry entries | _ \<Rightarrow> False)"

definition packageJsonSchema :: "'n json \<Rightarrow> bool" where
  "packageJsonSchema v =
     (case v of
        JObject props \<Rightarrow>
          z_string_min1 (map_of props ''name'') \<and>
          z_optional z_string (map_of props ''version'') \<and>
          z_optional z_string (map_of props ''description'') \<and>
          z_optional (z_record z_string) (map_of props ''dependencies'') \<and>
          z_optional (z_record z_string) (map_of props ''devDependencies'')
      | _ \<Rightarrow> False)"

text \<open>
  Reading a string property, and \<open>Object.keys(data[k] || {})\<close>, of the parsed data of a
  value that has passed its schema. For a record, \<open>zod\<close> copies the validated entries into
  a new object in enumeration order and leaves out an entry with the key \<open>__proto__\<close>.
\<close>

definition string_field :: "'n json \<Rightarrow> string \<Rightarrow> string option" where
  "string_field v k =
     (case v of
        JObject props \<Rightarrow> (case map_of props k of Some (JString s) \<Rightarrow> Some s | _ \<Rightarrow> None)
      | _ \<Rightarrow> None)"

definition record_keys :: "'n json \<Rightarrow> string \<Rightarrow> string list" where
  "record_keys v k =
     (case v of
        JObject props \<Rightarrow>
          (case map_of props k of
             Some (JObject deps) \<Rightarrow> filter (\<lambda>key. key \<noteq> ''__proto__'') (map fst deps)
           | _ \<Rightarrow> [])
      | _ \<Rightarrow> [])"

text \<open>
  The callback of \<open>packages.map\<close>. The external calls are parameters: \<open>readPackageJson p\<close>
  is \<open>JSON.parse(fs.readFileSync(path.join(p, "package.json"), "utf-8"))\<close>, or \<open>None\<close> when
  that throws, and \<open>relative\<close> is \<open>path.relative\<close>. The writes to the console are not part
  of the model.
\<close>

definition validated_package ::
  "string \<Rightarrow> (string \<Rightarrow> 'n json option) \<Rightarrow> (string \<Rightarrow> string \<Rightarrow> string) \<Rightarrow> 'n json \<Rightarrow>
   error + project" where
  "validated_package rootPath readPackageJson relative pkg =
     (let pkg_name = (case string_field pkg ''name'' of Some s \<Rightarrow> s | None \<Rightarrow> []);
          pkg_path = (case string_field pkg ''path'' of Some s \<Rightarrow> s | None \<Rightarrow> [])
      in case readPackageJson pkg_path of
           None \<Rightarrow> Inl ExternalFailure
         | Some packageJson \<Rightarrow>
             if \<not> packageJsonSchema packageJson
             then Inl (Error (''Invalid package.json in '' @ pkg_path))
             else Inr \<lparr>project.name = pkg_name,
                       namespacePrefix = first_segment pkg_name,
                       path = relative rootPath pkg_path,
                       dependencies = record_keys packageJson ''dependencies'',
                       devDependencies = record_keys packageJson ''devDependencies'',
                       description = string_field packageJson ''description''\<rparr>)"

text \<open>\<open>packages.map\<close>: the first callback that throws ends the loop.\<close>

fun validated_packages ::
  "string \<Rightarrow> (string \<Rightarrow> 'n json option) \<Rightarrow> (string \<Rightarrow> string \<Rightarrow> string) \<Rightarrow> 'n json list \<Rightarrow>
   error + project list" where
  "validated_packages rootPath readPackageJson relative [] = Inr []"
| "validated_packages rootPath readPackageJson relative (pkg # packages) =
     (case validated_package rootPath readPackageJson relative pkg of
        Inl e \<Rightarrow> Inl e
      | Inr p \<Rightarrow>
          (case validated_packages rootPath readPackageJson relative packages of
             Inl e \<Rightarrow> Inl e
           | Inr ps \<Rightarrow> Inr (p # ps)))"

text \<open>
  The body of the \<open>try\<close> block. \<open>output\<close> is \<open>JSON.parse(execSync("pnpm ls ..."))\<close>, or
  \<open>None\<close> when that throws.
\<close>

definition workspace_projects_try ::
  "string \<Rightarrow> 'n json option \<Rightarrow> (string \<Rightarrow> 'n json option) \<Rightarrow> (string \<Rightarrow> string \<Rightarrow> string) \<Rightarrow>
   error + project list" where
  "workspace_projects_try rootPath output readPackageJson relative =
     (case output of
        None \<Rightarrow> Inl ExternalFailure
      | Some parsed \<Rightarrow>
          if \<not> WorkspaceProjectSchema parsed
          then Inl (Error ''Invalid workspace projects structure'')
          else validated_packages rootPath readPackageJson relative
                 (case parsed of JArray packages \<Rightarrow> packages | _ \<Rightarrow> []))"

text \<open>
  \<open>getPnpmWorkspaceProjects\<close>: the \<open>catch\<close> clause turns every error of the body into the
  empty list. The result is the settled promise, \<open>Inl\<close> for a rejection.
\<close>

definition getPnpmWorkspaceProjects ::
  "string \<Rightarrow> 'n json option \<Rightarrow> (string \<Rightarrow> 'n json option) \<Rightarrow> (string \<Rightarrow> string \<Rightarrow> string) \<Rightarrow>
   error + project list" where
  "getPnpmWorkspaceProjects rootPath output readPackageJson relative =
     (case workspace_projects_try rootPath output readPackageJson relative of
        Inl e \<Rightarrow> Inr []
      | Inr validatedPackages \<Rightarrow> Inr validatedPackages)"

text \<open>
  The command's action from the call of \<open>getPnpmWorkspaceProjects\<close> on, up to the tree and
  graph texts: none when it returns at \<open>projects.length === 0\<close>, otherwise the two texts of
  \<open>generateArchitectureDoc\<close>. \<open>rootPackageJson\<close> is the result of \<open>fs.readJSON\<close> on the root
  manifest, or \<open>None\<close> when that throws. The two AI calls catch their own failures and fall
  back to local text; the templating, the preview, the confirmation and the writing of the
  file come after the two texts and are not part of the model.
\<close>

definition action_tree_and_graph ::
  "string \<Rightarrow> 'n json option \<Rightarrow> (string \<Rightarrow> 'n json option) \<Rightarrow> (string \<Rightarrow> string \<Rightarrow> string) \<Rightarrow>
   'n json option \<Rightarrow> error + (string \<times> string) option" where
  "action_tree_and_graph rootPath output readPackageJson relative rootPackageJson =
     (case getPnpmWorkspaceProjects rootPath output readPackageJson relative of
        Inl e \<Rightarrow> Inl e
      | Inr projects \<Rightarrow>
          if length projects = 0 then Inr None
          else (case rootPackageJson of
                  None \<Rightarrow> Inl ExternalFailure
                | Some manifest \<Rightarrow>
                    (case generateDependencyGraph projects of
                       Inl e \<Rightarrow> Inl e
                     | Inr graph \<Rightarrow>
                         Inr (Some (generateFolderTree (createNodeTree projects), graph)))))"

text \<open>
  The value of the option \<open>--ai [openaikey]\<close>: \<open>false\<close> by default, \<open>true\<close> for the bare
  flag, or the string given with it.
\<close>

datatype ai_option = AiDefault | AiFlag | AiValue string

definition ai_truthy :: "ai_option \<Rightarrow> bool" where
  "ai_truthy ai = (case ai of AiDefault \<Rightarrow> False | AiFlag \<Rightarrow> True | AiValue k \<Rightarrow> k \<noteq> [])"

definition ai_is_string :: "ai_option \<Rightarrow> bool" where
  "ai_is_string ai = (case ai of AiValue k \<Rightarrow> True | _ \<Rightarrow> False)"

text \<open>
  The whole action: before anything else, \<open>--ai\<close> without a key in the option or in the
  environment variable \<open>OPENAI_API_KEY\<close> (\<open>envKey\<close>) throws.
\<close>

definition command_action ::
  "ai_option \<Rightarrow> string option \<Rightarrow> string \<Rightarrow> 'n json option \<Rightarrow> (string \<Rightarrow> 'n json option) \<Rightarrow>
   (string \<Rightarrow> string \<Rightarrow> string) \<Rightarrow> 'n json option \<Rightarrow> error + (string \<times> string) option" where
  "command_action ai envKey rootPath output readPackageJson relative rootPackageJson =
     (if ai_truthy ai \<and> envKey = None \<and> \<not> ai_is_string ai
      then Inl (Error ''OPENAI_API_KEY is required for AI enhancement'')
      else action_tree_and_graph rootPath output readPackageJson relative rootPackageJson)"

section \<open>Auxiliary notions for the properties\<close>


text \<open>
  A project with every occurrence of the name \<open>d\<close> removed from its two dependency lists:
  the input without that dependency.
\<close>

definition drop_dependency :: "string \<Rightarrow> project \<Rightarrow> project" where
  "drop_dependency d p =
     p\<lparr>dependencies := filter (\<lambda>x. x \<noteq> d) (dependencies p),
       devDependencies := filter (\<lambda>x. x \<noteq> d) (devDependencies p)\<rparr>"

text \<open>The subgraph dictionary with \<open>f\<close> applied to every member.\<close>

definition members_mapped ::
  "(project \<Rightarrow> project) \<Rightarrow> (string \<times> project list) list \<Rightarrow> (string \<times> project list) list" where
  "members_mapped f sg = map (\<lambda>entry. (fst entry, map f (snd entry))) sg"

text \<open>The map of subgraph dependencies with \<open>""\<close> removed from every set.\<close>

definition nonempty_targets ::
  "(string \<times> string list) list \<Rightarrow> (string \<times> string list) list" where
  "nonempty_targets m = map (\<lambda>entry. (fst entry, filter (\<lambda>x. x \<noteq> []) (snd entry))) m"





text \<open>The child list of a node, empty when \<open>inner\<close> is \<open>undefined\<close>.\<close>

definition children :: "node \<Rightarrow> node list" where
  "children n = (case inner n of None \<Rightarrow> [] | Some kids \<Rightarrow> kids)"

text \<open>
  Traversal from a node through the \<open>inner\<close> child lists by path segments in order: each
  segment selects the first child with that name.
\<close>

fun descend :: "node \<Rightarrow> string list \<Rightarrow> node option" where
  "descend n [] = Some n"
| "descend n (part # rest) =
     (case find (\<lambda>c. node.name c = part) (children n) of
        None \<Rightarrow> None
      | Some c \<Rightarrow> descend c rest)"

definition names_project :: "node option \<Rightarrow> string \<Rightarrow> bool" where
  "names_project found nm = (case found of None \<Rightarrow> False | Some n \<Rightarrow> projectName n = Some nm)"

text \<open>
  A project's node is reached by its path segments from a top-level node in either reading
  of the traversal: all the segments are followed below the top-level node, or the first
  segment names the top-level node and the remaining ones are followed below it.
\<close>

definition reaches :: "node list \<Rightarrow> string list \<Rightarrow> string \<Rightarrow> bool" where
  "reaches tree parts nm =
     (\<exists>r \<in> set tree.
        names_project (descend r parts) nm \<or>
        (case parts of
           [] \<Rightarrow> False
         | part # rest \<Rightarrow> node.name r = part \<and> names_project (descend r rest) nm))"

text \<open>The same traversal started in a child list; no segment selects no node.\<close>

fun lookup_parts :: "node list \<Rightarrow> string list \<Rightarrow> node option" where
  "lookup_parts current [] = None"
| "lookup_parts current (part # rest) =
     (case find (\<lambda>c. node.name c = part) current of
        None \<Rightarrow> None
      | Some c \<Rightarrow> if rest = [] then Some c else lookup_parts (children c) rest)"

text \<open>Successive runs of the inner loop in one child list, each with its parts and project.\<close>

definition insert_keyed :: "node list \<Rightarrow> (string list \<times> project) list \<Rightarrow> node list" where
  "insert_keyed current ks = foldl (\<lambda>cur k. insert_parts (snd k) (fst k) cur) current ks"

definition all_parts :: "project \<Rightarrow> string list \<times> project" where
  "all_parts q = (js_split CHR ''/'' (path q), q)"

text \<open>
  The parts that the project at position \<open>j\<close> inserts below the first top-level node: all
  the parts of its path, except for the first project, whose first part is the top-level
  node itself.
\<close>

definition inserted_parts :: "project list \<Rightarrow> nat \<Rightarrow> string list" where
  "inserted_parts projects j =
     (if j = 0 then tl (js_split CHR ''/'' (path (projects ! j)))
      else js_split CHR ''/'' (path (projects ! j)))"

text \<open>A discovered record has a property \<open>name\<close> that is a non-empty string.\<close>

definition has_nonempty_name :: "'n json \<Rightarrow> bool" where
  "has_nonempty_name r =
     (case r of
        JObject props \<Rightarrow> (case map_of props ''name'' of Some (JString s) \<Rightarrow> s \<noteq> [] | _ \<Rightarrow> False)
      | _ \<Rightarrow> False)"

section \<open>Example inputs\<close>

text \<open>
  A project record as \<open>getPnpmWorkspaceProjects\<close> builds it, with no development
  dependencies and no description; \<open>namespacePrefix\<close> is \<open>name.split("/")[0]\<close>.
\<close>

definition example_project :: "string \<Rightarrow> string \<Rightarrow> string list \<Rightarrow> project" where
  "example_project n p ds =
     \<lparr>project.name = n, namespacePrefix = first_segment n, path = p, dependencies = ds,
      devDependencies = [], description = None\<rparr>"

definition core_project :: project where
  "core_project = example_project ''@x/core'' ''packages/core'' []"


definition api_project :: project where
  "api_project = example_project ''@x/api'' ''services/api'' [''@x/core'', ''left-pad'']"

definition web_project :: project where
  "web_project = example_project ''@x/web'' ''services/web'' [''@x/core'']"

definition e2e_project :: project where
  "e2e_project = example_project ''@x/web-e2e'' ''services/web/e2e'' []"

definition root_project :: project where
  "root_project = example_project ''root'' [] []"

definition pkg_a_project :: project where
  "pkg_a_project = example_project ''pkg-a'' ''packages/a'' []"

text \<open>A discovered record whose name is the empty string, and a project with that name.\<close>

definition nameless_record :: "unit json" where
  "nameless_record = JObject [(''name'', JString []), (''path'', JString ''/repo/packages/a'')]"

definition nameless_project :: project where
  "nameless_project = example_project [] ''packages/a'' []"

text \<open>The graph text of the scenario of two projects, one of which depends on the other.\<close>

definition scenario_graph_text :: string where
  "scenario_graph_text =
     ''```mermaid\<newline>graph TD\<newline>  subgraph packages\<newline>     _x_core[\"@x/core\"]\<newline>  end\<newline>  subgraph services\<newline>     _x_api[\"@x/api\"]\<newline>  end\<newline>  services --> packages\<newline>```''"










section \<open>Properties of identifier sanitization\<close>

text \<open>
  Claim C8. Sanitization is idempotent: a string that contains none of \<open>@\<close>, \<open>/\<close>, \<open>-\<close> is
  returned unchanged, and sanitizing a sanitized string changes nothing.
\<close>

theorem sanitizeMermaid_idempotent:
  "(CHR ''@'' \<notin> set s \<and> CHR ''/'' \<notin> set s \<and> CHR ''-'' \<notin> set s \<longrightarrow> sanitizeMermaid s = s) \<and>
   sanitizeMermaid (sanitizeMermaid s) = sanitizeMermaid s"
  unfolding sanitizeMermaid_def by (induction s) auto

theorem sanitizeMermaid_idempotent_witness:
  "CHR ''@'' \<notin> set ''_x_core'' \<and> CHR ''/'' \<notin> set ''_x_core'' \<and> CHR ''-'' \<notin> set ''_x_core'' \<and>
   sanitizeMermaid ''_x_core'' = ''_x_core'' \<and>
   sanitizeMermaid (sanitizeMermaid ''_x_core'') = sanitizeMermaid ''_x_core''"
  using sanitizeMermaid_idempotent [of "''_x_core''"] by simp

lemma graph_same_identifier:
  "generateDependencyGraph
     [example_project ''a-b'' ''p/x'' [], example_project ''a_b'' ''p/y'' []] =
   Inr ''```mermaid\<newline>graph TD\<newline>  subgraph p\<newline>     a_b[\"a-b\"]\<newline>     a_b[\"a_b\"]\<newline>  end\<newline>```''"
  by code_simp

text \<open>
  Claim C10. Sanitization is not injective: the distinct names \<open>a-b\<close> and \<open>a_b\<close> get the
  same identifier, and the graph of two projects with these names declares two nodes with
  the identifier \<open>a_b\<close> and different labels.
\<close>

theorem sanitizeMermaid_not_injective:
  "''a-b'' \<noteq> ''a_b'' \<and>
   sanitizeMermaid ''a-b'' = sanitizeMermaid ''a_b'' \<and>
   \<not> inj sanitizeMermaid \<and>
   generateDependencyGraph
     [example_project ''a-b'' ''p/x'' [], example_project ''a_b'' ''p/y'' []] =
   Inr ''```mermaid\<newline>graph TD\<newline>  subgraph p\<newline>     a_b[\"a-b\"]\<newline>     a_b[\"a_b\"]\<newline>  end\<newline>```''"
proof -
  have same: "sanitizeMermaid ''a-b'' = sanitizeMermaid ''a_b''"
    by (simp add: sanitizeMermaid_def)
  have "\<not> inj sanitizeMermaid"
  proof
    assume "inj sanitizeMermaid"
    then have "''a-b'' = ''a_b''"
      using same by (rule injD)
    then show False by simp
  qed
  with same graph_same_identifier show ?thesis
    by simp
qed

section \<open>Properties of the dependency graph\<close>

lemma js_split_nonempty: "js_split sep s \<noteq> []"
  by (induction s) (auto split: list.splits)















































lemma drop_dependency_simps [simp]:
  "project.name (drop_dependency d p) = project.name p"
  "path (drop_dependency d p) = path p"
  "dependencies (drop_dependency d p) = filter (\<lambda>x. x \<noteq> d) (dependencies p)"
  "devDependencies (drop_dependency d p) = filter (\<lambda>x. x \<noteq> d) (devDependencies p)"
  by (simp_all add: drop_dependency_def)

lemma map_of_map_values:
  "map_of (map (\<lambda>entry. (fst entry, g (snd entry))) al) k = map_option g (map_of al k)"
  by (induction al) auto

lemma update_map_values:
  "AList.update k (g v) (map (\<lambda>entry. (fst entry, g (snd entry))) al) =
   map (\<lambda>entry. (fst entry, g (snd entry))) (AList.update k v al)"
  by (induction al) auto

lemma group_step_mapped:
  assumes "\<And>p. path (f p) = path p"
  shows "group_step (members_mapped f sg) (f p) = map_sum id (members_mapped f) (group_step sg p)"
proof (cases "map_of sg (first_segment (path p))")
  case None
  then show ?thesis
    by (simp add: group_step_def members_mapped_def map_of_map_values assms Let_def)
next
  case (Some ps)
  have "AList.update (first_segment (path p)) (map f (ps @ [p])) (members_mapped f sg) =
      members_mapped f (AList.update (first_segment (path p)) (ps @ [p]) sg)"
    unfolding members_mapped_def by (rule update_map_values)
  with Some show ?thesis
    by (simp add: group_step_def members_mapped_def map_of_map_values assms Let_def)
qed

lemma group_projects_mapped:
  assumes "\<And>p. path (f p) = path p"
  shows "group_projects (members_mapped f sg) (map f ps) =
         map_sum id (members_mapped f) (group_projects sg ps)"
proof (induction ps arbitrary: sg)
  case Nil
  then show ?case by simp
next
  case (Cons p ps)
  show ?case
    by (cases "group_step sg p") (simp_all add: group_step_mapped [OF assms] Cons.IH)
qed

lemma insort_key_map_values:
  "insort_key (\<lambda>kv. h (fst kv)) (fst x, g (snd x)) (map (\<lambda>entry. (fst entry, g (snd entry))) xs) =
   map (\<lambda>entry. (fst entry, g (snd entry))) (insort_key (\<lambda>kv. h (fst kv)) x xs)"
  by (induction xs) auto

lemma sort_key_map_values:
  "sort_key (\<lambda>kv. h (fst kv)) (map (\<lambda>entry. (fst entry, g (snd entry))) xs) =
   map (\<lambda>entry. (fst entry, g (snd entry))) (sort_key (\<lambda>kv. h (fst kv)) xs)"
  by (induction xs) (simp_all add: insort_key_map_values)

lemma object_entries_map_values:
  "object_entries (map (\<lambda>entry. (fst entry, g (snd entry))) props) =
   map (\<lambda>entry. (fst entry, g (snd entry))) (object_entries props)"
proof -
  have "filter (\<lambda>kv. P (fst kv)) (map (\<lambda>entry. (fst entry, g (snd entry))) props) =
      map (\<lambda>entry. (fst entry, g (snd entry))) (filter (\<lambda>kv. P (fst kv)) props)" for P
    by (induction props) auto
  then show ?thesis
    by (simp add: object_entries_def sort_key_map_values)
qed

lemma subgraph_block_mapped:
  assumes "\<And>p. project.name (f p) = project.name p"
  shows "subgraph_block (fst entry, map f (snd entry)) = subgraph_block entry"
proof -
  have "node_declaration (f p) = node_declaration p" for p
    by (simp add: node_declaration_def assms)
  then have "node_declaration \<circ> f = node_declaration"
    by (simp add: fun_eq_iff)
  then show ?thesis
    by (simp add: subgraph_block_def)
qed

lemma blocks_mapped:
  assumes "\<And>p. project.name (f p) = project.name p"
  shows "concat (map subgraph_block (object_entries (members_mapped f sg))) =
         concat (map subgraph_block (object_entries sg))"
  unfolding members_mapped_def object_entries_map_values
  by (simp add: comp_def subgraph_block_mapped [OF assms])


lemma edge_statement_nonempty_targets:
  "edge_statement (fst entry, filter (\<lambda>x. x \<noteq> []) (snd entry)) = edge_statement entry"
proof -
  have "edge_targets (fst entry, filter (\<lambda>x. x \<noteq> []) (snd entry)) = edge_targets entry"
    by (auto simp: edge_targets_def intro: filter_cong)
  then show ?thesis
    by (simp add: edge_statement_def Let_def)
qed

lemma edges_nonempty_targets:
  "concat (map edge_statement (nonempty_targets m)) = concat (map edge_statement m)"
  by (simp add: nonempty_targets_def comp_def edge_statement_nonempty_targets)

lemma resolve_dependency_mapped:
  assumes "\<And>p. project.name (f p) = project.name p" and "\<And>p. path (f p) = path p"
  shows "resolve_dependency (map f projects) dep = resolve_dependency projects dep"
proof -
  have "find (\<lambda>p. project.name p = dep) (map f projects) =
      map_option f (find (\<lambda>p. project.name p = dep) projects)"
    by (induction projects) (simp_all add: assms)
  then show ?thesis
    by (simp add: resolve_dependency_def assms split: option.splits)
qed

lemma filter_set_add:
  "filter (\<lambda>x. x \<noteq> []) (set_add s y) =
   (if y = [] \<or> y \<in> set s then filter (\<lambda>x. x \<noteq> []) s else filter (\<lambda>x. x \<noteq> []) s @ [y])"
  by (simp add: set_add_def)

lemma set_add_same_nonempty:
  assumes "filter (\<lambda>x. x \<noteq> []) s' = filter (\<lambda>x. x \<noteq> []) s"
  shows "filter (\<lambda>x. x \<noteq> []) (set_add s' y) = filter (\<lambda>x. x \<noteq> []) (set_add s y)"
proof (cases "y = []")
  case True
  with assms show ?thesis by (simp add: filter_set_add)
next
  case False
  have "y \<in> set s' \<longleftrightarrow> y \<in> set (filter (\<lambda>x. x \<noteq> []) s')"
    using False by simp
  also have "\<dots> \<longleftrightarrow> y \<in> set (filter (\<lambda>x. x \<noteq> []) s)"
    by (simp only: assms)
  also have "\<dots> \<longleftrightarrow> y \<in> set s"
    using False by simp
  finally show ?thesis
    using assms by (simp add: filter_set_add)
qed

lemma foldl_set_add_dropped:
  assumes "r d = []" and "filter (\<lambda>x. x \<noteq> []) s' = filter (\<lambda>x. x \<noteq> []) s"
  shows "filter (\<lambda>x. x \<noteq> []) (foldl set_add s' (map r (filter (\<lambda>x. x \<noteq> d) xs))) =
         filter (\<lambda>x. x \<noteq> []) (foldl set_add s (map r xs))"
  using assms(2)
proof (induction xs arbitrary: s s')
  case Nil
  then show ?case by simp
next
  case (Cons x xs)
  show ?case
  proof (cases "x = d")
    case True
    have "filter (\<lambda>x. x \<noteq> []) s' = filter (\<lambda>x. x \<noteq> []) (set_add s [])"
      using Cons.prems by (simp add: filter_set_add)
    from Cons.IH [OF this] True assms(1) show ?thesis by simp
  next
    case False
    from Cons.IH [OF set_add_same_nonempty [OF Cons.prems, of "r x"]] False
    show ?thesis by simp
  qed
qed


lemma dependency_step_dropped:
  assumes unmatched: "\<forall>p\<in>set projects. project.name p \<noteq> d"
    and rel: "nonempty_targets m' = nonempty_targets m"
  shows "nonempty_targets
           (dependency_step (map (drop_dependency d) projects) m' (drop_dependency d p)) =
         nonempty_targets (dependency_step projects m p)"
proof (cases "path p = []")
  case True
  with rel show ?thesis by (simp add: dependency_step_def)
next
  case False
  define k where "k = first_segment (path p)"
  define r where "r = resolve_dependency projects"
  define cur where "cur = (case map_of m k of Some s \<Rightarrow> s | None \<Rightarrow> [])"
  define cur' where "cur' = (case map_of m' k of Some s \<Rightarrow> s | None \<Rightarrow> [])"
  have r': "resolve_dependency (map (drop_dependency d) projects) = r"
    by (simp add: fun_eq_iff r_def resolve_dependency_mapped)
  have "find (\<lambda>p. project.name p = d) projects = None"
    using unmatched by (simp add: find_None_iff)
  then have rd: "r d = []"
    by (simp add: r_def resolve_dependency_def)
  have "map_of (nonempty_targets m') k = map_of (nonempty_targets m) k"
    by (simp only: rel)
  then have cur_rel: "filter (\<lambda>x. x \<noteq> []) cur' = filter (\<lambda>x. x \<noteq> []) cur"
    by (auto simp: nonempty_targets_def map_of_map_values cur_def cur'_def split: option.splits)
  have filt: "filter (\<lambda>x. x \<noteq> d) (dependencies p) @ filter (\<lambda>x. x \<noteq> d) (devDependencies p) =
      filter (\<lambda>x. x \<noteq> d) (dependencies p @ devDependencies p)"
    by simp
  have new_rel:
    "filter (\<lambda>x. x \<noteq> [])
       (foldl set_add cur' (map r (filter (\<lambda>x. x \<noteq> d) (dependencies p @ devDependencies p)))) =
     filter (\<lambda>x. x \<noteq> []) (foldl set_add cur (map r (dependencies p @ devDependencies p)))"
    using rd cur_rel by (rule foldl_set_add_dropped [where r = r and d = d])
  have lhs: "dependency_step (map (drop_dependency d) projects) m' (drop_dependency d p) =
      AList.update k
        (foldl set_add cur' (map r (filter (\<lambda>x. x \<noteq> d) (dependencies p @ devDependencies p)))) m'"
    using False by (simp add: dependency_step_def Let_def r' k_def cur'_def)
  have rhs: "dependency_step projects m p =
      AList.update k (foldl set_add cur (map r (dependencies p @ devDependencies p))) m"
    using False by (simp add: dependency_step_def Let_def r_def k_def cur_def)
  have upd: "nonempty_targets (AList.update k v al) =
      AList.update k (filter (\<lambda>x. x \<noteq> []) v) (nonempty_targets al)" for v al
    unfolding nonempty_targets_def by (rule update_map_values [symmetric])
  show ?thesis
    unfolding lhs rhs upd new_rel rel ..
qed

lemma foldl_dependency_step_dropped:
  assumes "\<forall>p\<in>set projects. project.name p \<noteq> d"
  shows "nonempty_targets m' = nonempty_targets m \<Longrightarrow>
         nonempty_targets
           (foldl (dependency_step (map (drop_dependency d) projects)) m'
              (map (drop_dependency d) ps)) =
         nonempty_targets (foldl (dependency_step projects) m ps)"
proof (induction ps arbitrary: m m')
  case Nil
  then show ?case by simp
next
  case (Cons p ps)
  from Cons.IH [OF dependency_step_dropped [OF assms Cons.prems, of p]]
  show ?case by simp
qed

lemma edges_dropped:
  assumes "\<forall>p\<in>set projects. project.name p \<noteq> d"
  shows "concat (map edge_statement (subgraphDependencies (map (drop_dependency d) projects))) =
         concat (map edge_statement (subgraphDependencies projects))"
proof -
  have "nonempty_targets (subgraphDependencies (map (drop_dependency d) projects)) =
      nonempty_targets (subgraphDependencies projects)"
    unfolding subgraphDependencies_def
    by (rule foldl_dependency_step_dropped [OF assms]) simp
  then have "concat (map edge_statement
        (nonempty_targets (subgraphDependencies (map (drop_dependency d) projects)))) =
      concat (map edge_statement (nonempty_targets (subgraphDependencies projects)))"
    by simp
  then show ?thesis
    by (simp only: edges_nonempty_targets)
qed

lemma graph_dropped:
  assumes "\<forall>p\<in>set projects. project.name p \<noteq> d"
  shows "generateDependencyGraph (map (drop_dependency d) projects) =
         generateDependencyGraph projects"
proof -
  have "group_projects (members_mapped (drop_dependency d) []) (map (drop_dependency d) projects) =
      map_sum id (members_mapped (drop_dependency d)) (group_projects [] projects)"
    by (rule group_projects_mapped) simp
  then have grp: "group_projects [] (map (drop_dependency d) projects) =
      map_sum id (members_mapped (drop_dependency d)) (group_projects [] projects)"
    by (simp add: members_mapped_def)
  show ?thesis
  proof (cases "group_projects [] projects")
    case (Inl e)
    with grp show ?thesis
      by (simp add: generateDependencyGraph_def)
  next
    case (Inr sg)
    with grp show ?thesis
      by (simp add: generateDependencyGraph_def edges_dropped [OF assms] blocks_mapped)
  qed
qed

lemma scenario_graph:
  "generateDependencyGraph [core_project, api_project] = Inr scenario_graph_text"
  by code_simp

lemma scenario_graph_no_left_pad: "\<not> sublist ''left-pad'' scenario_graph_text"
  by code_simp

text \<open>
  Claim C5. A dependency name that is the name of no project contributes nothing to the
  graph: the output for the input with that name removed from all dependency lists is the
  same, error or text. In the scenario the output has the two subgraphs \<open>packages\<close> and
  \<open>services\<close>, the single edge \<open>services --> packages\<close>, and no occurrence of \<open>left-pad\<close>.
\<close>

theorem external_dependency_dropped:
  "((\<forall>p\<in>set projects. project.name p \<noteq> d) \<longrightarrow>
      generateDependencyGraph (map (drop_dependency d) projects) =
      generateDependencyGraph projects) \<and>
   generateDependencyGraph [core_project, api_project] = Inr scenario_graph_text \<and>
   \<not> sublist ''left-pad'' scenario_graph_text"
  using graph_dropped [of projects d] scenario_graph scenario_graph_no_left_pad
  by blast

theorem external_dependency_dropped_witness:
  "project.name core_project \<noteq> ''left-pad'' \<and>
   project.name api_project \<noteq> ''left-pad'' \<and>
   ''left-pad'' \<in> set (dependencies api_project) \<and>
   generateDependencyGraph (map (drop_dependency ''left-pad'') [core_project, api_project]) =
   generateDependencyGraph [core_project, api_project]"
proof -
  have names: "project.name core_project \<noteq> ''left-pad''" "project.name api_project \<noteq> ''left-pad''"
    by (simp_all add: core_project_def api_project_def example_project_def)
  have dep: "''left-pad'' \<in> set (dependencies api_project)"
    by (simp add: api_project_def example_project_def)
  have "\<forall>p\<in>set [core_project, api_project]. project.name p \<noteq> ''left-pad''"
    using names by simp
  with external_dependency_dropped [of "[core_project, api_project]" "''left-pad''"] names dep
  show ?thesis by blast
qed


section \<open>Properties of the path tree\<close>

lemma descend_lookup:
  "descend n parts = (if parts = [] then Some n else lookup_parts (children n) parts)"
proof (induction parts arbitrary: n)
  case Nil
  then show ?case by simp
next
  case (Cons part rest)
  then show ?case by (simp split: option.splits)
qed

lemma find_insert_same:
  "find (\<lambda>c. node.name c = part) (insert_parts p (part # rest) current) =
   Some (case find (\<lambda>c. node.name c = part) current of
           None \<Rightarrow> Node part (Some (insert_parts p rest []))
                     (if rest = [] then Some (project.name p) else None) (path p = [])
         | Some c \<Rightarrow> Node (node.name c) (Some (insert_parts p rest (children c)))
                     (projectName c) (root c))"
  by (induction current) (simp_all add: children_def)

lemma find_insert_other:
  "part' \<noteq> part \<Longrightarrow>
   find (\<lambda>c. node.name c = part') (insert_parts p (part # rest) current) =
   find (\<lambda>c. node.name c = part') current"
  by (induction current) simp_all

lemma lookup_parts_Nil [simp]: "lookup_parts [] parts = None"
  by (cases parts) simp_all

lemma insert_creates:
  "parts \<noteq> [] \<Longrightarrow> lookup_parts current parts = None \<Longrightarrow>
   \<exists>n. lookup_parts (insert_parts p parts current) parts = Some n \<and>
       projectName n = Some (project.name p)"
proof (induction parts arbitrary: current)
  case Nil
  then show ?case by simp
next
  case (Cons part rest)
  show ?case
  proof (cases "rest = []")
    case True
    with Cons.prems show ?thesis
      by (simp add: find_insert_same split: option.splits)
  next
    case False
    show ?thesis
    proof (cases "find (\<lambda>c. node.name c = part) current")
      case None
      from Cons.IH [OF False, of "[]"] None False show ?thesis
        by (simp add: find_insert_same children_def)
    next
      case (Some c)
      with Cons.prems False have "lookup_parts (children c) rest = None"
        by simp
      from Cons.IH [OF False this] Some False show ?thesis
        by (simp add: find_insert_same children_def)
    qed
  qed
qed

lemma insert_preserves:
  "lookup_parts current q = Some n \<Longrightarrow>
   \<exists>n'. lookup_parts (insert_parts p parts current) q = Some n' \<and>
        projectName n' = projectName n"
proof (induction q arbitrary: current parts n)
  case Nil
  then show ?case by simp
next
  case (Cons a q')
  show ?case
  proof (cases parts)
    case Nil
    with Cons.prems show ?thesis by simp
  next
    case parts: (Cons part rest)
    show ?thesis
    proof (cases "a = part")
      case False
      with Cons.prems parts show ?thesis
        by (simp add: find_insert_other)
    next
      case True
      from Cons.prems obtain c where c: "find (\<lambda>c. node.name c = a) current = Some c"
        by (auto split: option.splits)
      show ?thesis
      proof (cases "q' = []")
        case q': True
        with Cons.prems c True parts show ?thesis
          by (simp add: find_insert_same)
      next
        case q': False
        with Cons.prems c have "lookup_parts (children c) q' = Some n"
          by simp
        from Cons.IH [OF this, of rest] c True parts q' show ?thesis
          by (simp add: find_insert_same children_def)
      qed
    qed
  qed
qed

lemma insert_keeps_absent:
  "lookup_parts current q = None \<Longrightarrow> \<not> prefix q parts \<Longrightarrow>
   lookup_parts (insert_parts p parts current) q = None"
proof (induction q arbitrary: current parts)
  case Nil
  then show ?case by simp
next
  case (Cons a q')
  show ?case
  proof (cases parts)
    case Nil
    with Cons.prems show ?thesis by simp
  next
    case parts: (Cons part rest)
    show ?thesis
    proof (cases "a = part")
      case False
      with Cons.prems parts show ?thesis
        by (simp add: find_insert_other)
    next
      case True
      with Cons.prems parts have np: "\<not> prefix q' rest"
        by simp
      then have q': "q' \<noteq> []"
        by auto
      show ?thesis
      proof (cases "find (\<lambda>c. node.name c = a) current")
        case None
        from Cons.IH [of "[]" rest, OF _ np] None True parts q' show ?thesis
          by (simp add: find_insert_same children_def)
      next
        case (Some c)
        with Cons.prems q' have "lookup_parts (children c) q' = None"
          by simp
        from Cons.IH [OF this np] Some True parts q' show ?thesis
          by (simp add: find_insert_same children_def)
      qed
    qed
  qed
qed


lemma insert_keyed_preserves:
  "lookup_parts current q = Some n \<Longrightarrow>
   \<exists>n'. lookup_parts (insert_keyed current ks) q = Some n' \<and> projectName n' = projectName n"
proof (induction ks arbitrary: current n)
  case Nil
  then show ?case by (simp add: insert_keyed_def)
next
  case (Cons k ks)
  from insert_preserves [OF Cons.prems, of "snd k" "fst k"]
  obtain n1 where n1: "lookup_parts (insert_parts (snd k) (fst k) current) q = Some n1"
      "projectName n1 = projectName n"
    by blast
  from Cons.IH [OF n1(1)] n1(2) show ?case
    by (simp add: insert_keyed_def)
qed

lemma insert_keyed_keeps_absent:
  "lookup_parts current q = None \<Longrightarrow> \<forall>k\<in>set ks. \<not> prefix q (fst k) \<Longrightarrow>
   lookup_parts (insert_keyed current ks) q = None"
proof (induction ks arbitrary: current)
  case Nil
  then show ?case by (simp add: insert_keyed_def)
next
  case (Cons k ks)
  from Cons.prems have "lookup_parts (insert_parts (snd k) (fst k) current) q = None"
    by (simp add: insert_keeps_absent)
  from Cons.IH [OF this] Cons.prems(2) show ?case
    by (simp add: insert_keyed_def)
qed

lemma insert_keyed_append:
  "insert_keyed current (xs @ k # ys) =
   insert_keyed (insert_parts (snd k) (fst k) (insert_keyed current xs)) ys"
  by (simp add: insert_keyed_def)

lemma insert_keyed_names:
  assumes "i < length ks" and "fst (ks ! i) \<noteq> []"
    and "lookup_parts current (fst (ks ! i)) = None"
    and "\<forall>j<i. \<not> prefix (fst (ks ! i)) (fst (ks ! j))"
  shows "\<exists>n. lookup_parts (insert_keyed current ks) (fst (ks ! i)) = Some n \<and>
             projectName n = Some (project.name (snd (ks ! i)))"
proof -
  define q where "q = fst (ks ! i)"
  have ks: "ks = take i ks @ ks ! i # drop (Suc i) ks"
    using assms(1) by (rule id_take_nth_drop)
  have "\<forall>k\<in>set (take i ks). \<not> prefix q (fst k)"
  proof
    fix k assume "k \<in> set (take i ks)"
    then obtain j where "j < length (take i ks)" "k = take i ks ! j"
      by (auto simp: in_set_conv_nth)
    with assms(1,4) show "\<not> prefix q (fst k)"
      by (simp add: q_def)
  qed
  with assms(3) have "lookup_parts (insert_keyed current (take i ks)) q = None"
    unfolding q_def [symmetric] by (rule insert_keyed_keeps_absent)
  from insert_creates [OF _ this, of "snd (ks ! i)"] assms(2)
  obtain n where n: "lookup_parts (insert_parts (snd (ks ! i)) q (insert_keyed current (take i ks))) q = Some n"
      "projectName n = Some (project.name (snd (ks ! i)))"
    unfolding q_def by blast
  from insert_keyed_preserves [OF n(1), of "drop (Suc i) ks"] n(2)
  have "\<exists>n'. lookup_parts (insert_keyed current (take i ks @ ks ! i # drop (Suc i) ks)) q = Some n' \<and>
      projectName n' = Some (project.name (snd (ks ! i)))"
    unfolding insert_keyed_append q_def by auto
  with ks show ?thesis
    unfolding q_def by simp
qed

lemma foldl_tree_step_top:
  "foldl tree_step [Node nm (Some kids) pn rt] ps =
   [Node nm (Some (insert_keyed kids (map all_parts ps))) pn rt]"
proof (induction ps arbitrary: kids)
  case Nil
  then show ?case by (simp add: insert_keyed_def)
next
  case (Cons p ps)
  have "tree_step [Node nm (Some kids) pn rt] p =
      [Node nm (Some (insert_parts p (js_split CHR ''/'' (path p)) kids)) pn rt]"
    by (simp add: tree_step_def)
  then show ?case
    by (simp add: Cons.IH insert_keyed_def all_parts_def)
qed

lemma createNodeTree_Cons:
  assumes "js_split CHR ''/'' (path p) = part # rest"
  shows "createNodeTree (p # ps) =
         [Node part (Some (insert_keyed [] ((rest, p) # map all_parts ps)))
            (if rest = [] then Some (project.name p) else None) (path p = [])]"
proof -
  have "tree_step [] p =
      [Node part (Some (insert_parts p rest []))
         (if rest = [] then Some (project.name p) else None) (path p = [])]"
    by (simp add: tree_step_def assms)
  then show ?thesis
    by (simp add: createNodeTree_def foldl_tree_step_top insert_keyed_def)
qed


text \<open>
  Claim C1, amended. The tree has a single top-level node. The project at position \<open>i\<close> is
  reached from it by its path segments, and the node reached carries its name, provided
  that the segments of its path are not a prefix of the parts inserted by any earlier
  project. For the first project, which always satisfies the condition, the first segment
  names the top-level node and the other segments are followed below it; for a later
  project all the segments are followed below the top-level node.
\<close>

theorem createNodeTree_reaches:
  assumes "i < length projects"
    and "\<forall>j<i. \<not> prefix (js_split CHR ''/'' (path (projects ! i))) (inserted_parts projects j)"
  shows "(\<exists>top. createNodeTree projects = [top] \<and>
            (if i = 0
             then (case js_split CHR ''/'' (path (projects ! i)) of
                     [] \<Rightarrow> False
                   | part # rest \<Rightarrow>
                       node.name top = part \<and>
                       names_project (descend top rest) (project.name (projects ! i)))
             else names_project (descend top (js_split CHR ''/'' (path (projects ! i))))
                    (project.name (projects ! i)))) \<and>
         reaches (createNodeTree projects) (js_split CHR ''/'' (path (projects ! i)))
           (project.name (projects ! i))"
proof -
  from assms(1) obtain p ps where projects: "projects = p # ps"
    by (cases projects) auto
  obtain part rest where parts: "js_split CHR ''/'' (path p) = part # rest"
    using js_split_nonempty [of "CHR ''/''" "path p"] by (cases "js_split CHR ''/'' (path p)") auto
  define ks where "ks = (rest, p) # map all_parts ps"
  define top where "top = Node part (Some (insert_keyed [] ks))
      (if rest = [] then Some (project.name p) else None) (path p = [])"
  have tree: "createNodeTree projects = [top]"
    unfolding projects top_def ks_def by (rule createNodeTree_Cons [OF parts])
  have kids: "children top = insert_keyed [] ks"
    by (simp add: top_def children_def)
  have len: "length ks = length projects"
    by (simp add: ks_def projects)
  have key: "ks ! j = (inserted_parts projects j, projects ! j)" if "j < length projects" for j
    using that by (cases j) (simp_all add: ks_def projects inserted_parts_def parts all_parts_def)
  have main: "if i = 0
      then (case js_split CHR ''/'' (path (projects ! i)) of
              [] \<Rightarrow> False
            | part # rest \<Rightarrow>
                node.name top = part \<and>
                names_project (descend top rest) (project.name (projects ! i)))
      else names_project (descend top (js_split CHR ''/'' (path (projects ! i))))
             (project.name (projects ! i))"
  proof (cases i)
    case 0
    have "names_project (descend top rest) (project.name p)"
    proof (cases "rest = []")
      case True
      then show ?thesis by (simp add: names_project_def top_def)
    next
      case False
      have "\<exists>n. lookup_parts (insert_keyed [] ks) (fst (ks ! 0)) = Some n \<and>
          projectName n = Some (project.name (snd (ks ! 0)))"
        by (rule insert_keyed_names) (simp_all add: ks_def False)
      with False show ?thesis
        by (auto simp: descend_lookup kids names_project_def ks_def)
    qed
    moreover have "node.name top = part"
      by (simp add: top_def)
    moreover have "projects ! i = p"
      using 0 projects by simp
    ultimately show ?thesis
      using 0 by (simp add: parts)
  next
    case (Suc i')
    define q where "q = js_split CHR ''/'' (path (projects ! i))"
    have q: "q \<noteq> []"
      unfolding q_def by (rule js_split_nonempty)
    have ki: "ks ! i = (q, projects ! i)"
      using key [OF assms(1)] Suc by (simp add: inserted_parts_def q_def)
    have "\<forall>j<i. \<not> prefix (fst (ks ! i)) (fst (ks ! j))"
      using assms by (simp add: ki key q_def)
    with len assms(1) q
    have "\<exists>n. lookup_parts (insert_keyed [] ks) (fst (ks ! i)) = Some n \<and>
        projectName n = Some (project.name (snd (ks ! i)))"
      by (intro insert_keyed_names) (simp_all add: ki)
    with q have "names_project (descend top q) (project.name (projects ! i))"
      by (auto simp: descend_lookup kids names_project_def ki)
    then show ?thesis
      using Suc by (simp add: q_def)
  qed
  then have "reaches (createNodeTree projects) (js_split CHR ''/'' (path (projects ! i)))
      (project.name (projects ! i))"
    unfolding reaches_def tree by (auto split: if_splits)
  moreover have "\<exists>top. createNodeTree projects = [top] \<and>
      (if i = 0
       then (case js_split CHR ''/'' (path (projects ! i)) of
               [] \<Rightarrow> False
             | part # rest \<Rightarrow>
                 node.name top = part \<and>
                 names_project (descend top rest) (project.name (projects ! i)))
       else names_project (descend top (js_split CHR ''/'' (path (projects ! i))))
              (project.name (projects ! i)))"
    using tree main by (intro exI [of _ top] conjI)
  ultimately show ?thesis
    by (intro conjI)
qed


lemma tree_nested_first:
  "createNodeTree [root_project, e2e_project, web_project] =
   [Node [] (Some [Node ''services''
                    (Some [Node ''web'' (Some [Node ''e2e'' (Some []) (Some ''@x/web-e2e'') False])
                             None False])
                    None False])
      (Some ''root'') True]"
  by code_simp

text \<open>
  A project whose directory contains a project listed before it: its node exists already
  when its turn comes, no node is created, and no \<open>projectName\<close> is set.
\<close>

theorem createNodeTree_reaches_counterexample:
  "web_project \<in> set [root_project, e2e_project, web_project] \<and>
   createNodeTree [root_project, e2e_project, web_project] =
   [Node [] (Some [Node ''services''
                    (Some [Node ''web'' (Some [Node ''e2e'' (Some []) (Some ''@x/web-e2e'') False])
                             None False])
                    None False])
      (Some ''root'') True] \<and>
   \<not> reaches (createNodeTree [root_project, e2e_project, web_project])
       (js_split CHR ''/'' (path web_project)) (project.name web_project)"
proof -
  have "\<not> reaches (createNodeTree [root_project, e2e_project, web_project])
       (js_split CHR ''/'' (path web_project)) (project.name web_project)"
    unfolding tree_nested_first
    by (simp add: reaches_def names_project_def children_def web_project_def example_project_def)
  with tree_nested_first show ?thesis
    by simp
qed

theorem createNodeTree_reaches_witness:
  "2 < length [root_project, web_project, e2e_project] \<and>
   \<not> prefix (js_split CHR ''/'' (path ([root_project, web_project, e2e_project] ! 2)))
       (inserted_parts [root_project, web_project, e2e_project] 0) \<and>
   \<not> prefix (js_split CHR ''/'' (path ([root_project, web_project, e2e_project] ! 2)))
       (inserted_parts [root_project, web_project, e2e_project] 1) \<and>
   reaches (createNodeTree [root_project, web_project, e2e_project])
     (js_split CHR ''/'' (path ([root_project, web_project, e2e_project] ! 2)))
     (project.name ([root_project, web_project, e2e_project] ! 2))"
proof -
  let ?ps = "[root_project, web_project, e2e_project]"
  have len: "2 < length ?ps" by simp
  have p0: "\<not> prefix (js_split CHR ''/'' (path (?ps ! 2))) (inserted_parts ?ps 0)"
    by (simp add: inserted_parts_def root_project_def e2e_project_def example_project_def)
  have p1: "\<not> prefix (js_split CHR ''/'' (path (?ps ! 2))) (inserted_parts ?ps 1)"
    by (simp add: inserted_parts_def web_project_def e2e_project_def example_project_def)
  have "\<forall>j<2. \<not> prefix (js_split CHR ''/'' (path (?ps ! 2))) (inserted_parts ?ps j)"
    using p0 p1 by (auto simp: less_Suc_eq numeral_2_eq_2)
  from createNodeTree_reaches [OF len this]
  have "reaches (createNodeTree ?ps) (js_split CHR ''/'' (path (?ps ! 2)))
      (project.name (?ps ! 2))"
    by (rule conjunct2)
  with len p0 p1 show ?thesis
    by (intro conjI)
qed

lemma root_first_tree:
  assumes "path p = []"
  shows "createNodeTree (p # ps) =
         [Node [] (Some (insert_keyed [] (([], p) # map all_parts ps))) (Some (project.name p)) True]"
  using createNodeTree_Cons [of p "[]" "[]" ps] assms by simp

lemma scenario_tree:
  "createNodeTree [root_project, pkg_a_project] =
   [Node [] (Some [Node ''packages'' (Some [Node ''a'' (Some []) (Some ''pkg-a'') False]) None False])
      (Some ''root'') True]"
  by code_simp

lemma scenario_tree_text:
  "generateFolderTree (createNodeTree [root_project, pkg_a_project]) =
   ''```\<newline>root\<newline>'' @ corner_connector @ ''packages\<newline>    '' @ corner_connector @ ''a\<newline>```''"
  by code_simp

text \<open>
  Claim C2, amended. When the first project of the list has the path \<open>""\<close>, the tree is the
  single top-level node of that project, flagged \<open>root\<close>, and the first line of the rendered
  body is the project's name with neither connector nor indentation; every other project
  is below it. In the scenario, \<open>packages\<close> and \<open>a\<close> (with \<open>projectName\<close> \<open>pkg-a\<close>) are
  nested below \<open>root\<close> with corner connectors.
\<close>

theorem root_first_rendered:
  "(path p = [] \<longrightarrow>
      (\<exists>kids. createNodeTree (p # ps) = [Node [] (Some kids) (Some (project.name p)) True] \<and>
         generateFolderTree (createNodeTree (p # ps)) =
         ''```\<newline>'' @ project.name p @ ''\<newline>'' @ renderTree kids [] @ ''```'')) \<and>
   createNodeTree [root_project, pkg_a_project] =
   [Node [] (Some [Node ''packages'' (Some [Node ''a'' (Some []) (Some ''pkg-a'') False]) None False])
      (Some ''root'') True] \<and>
   generateFolderTree (createNodeTree [root_project, pkg_a_project]) =
   ''```\<newline>root\<newline>'' @ corner_connector @ ''packages\<newline>    '' @ corner_connector @ ''a\<newline>```''"
proof -
  have "\<exists>kids. createNodeTree (p # ps) = [Node [] (Some kids) (Some (project.name p)) True] \<and>
         generateFolderTree (createNodeTree (p # ps)) =
         ''```\<newline>'' @ project.name p @ ''\<newline>'' @ renderTree kids [] @ ''```''"
    if "path p = []"
  proof (intro exI conjI)
    show tree: "createNodeTree (p # ps) =
        [Node [] (Some (insert_keyed [] (([], p) # map all_parts ps))) (Some (project.name p)) True]"
      using that by (rule root_first_tree)
    show "generateFolderTree (createNodeTree (p # ps)) =
        ''```\<newline>'' @ project.name p @ ''\<newline>'' @
        renderTree (insert_keyed [] (([], p) # map all_parts ps)) [] @ ''```''"
      unfolding tree by (simp add: generateFolderTree_def)
  qed
  with scenario_tree scenario_tree_text show ?thesis
    by blast
qed

theorem root_first_rendered_witness:
  "path root_project = [] \<and>
   (\<exists>kids. createNodeTree (root_project # [pkg_a_project]) =
        [Node [] (Some kids) (Some (project.name root_project)) True] \<and>
      generateFolderTree (createNodeTree (root_project # [pkg_a_project])) =
      ''```\<newline>'' @ project.name root_project @ ''\<newline>'' @ renderTree kids [] @ ''```'')"
proof -
  have "path root_project = []"
    by (simp add: root_project_def example_project_def)
  with root_first_rendered [of root_project "[pkg_a_project]"] show ?thesis
    by blast
qed

lemma tree_root_last:
  "createNodeTree [pkg_a_project, root_project] =
   [Node ''packages''
      (Some [Node ''a'' (Some []) (Some ''pkg-a'') False, Node [] (Some []) (Some ''root'') True])
      None False]"
  by code_simp

lemma tree_text_root_last:
  "generateFolderTree (createNodeTree [pkg_a_project, root_project]) =
   ''```\<newline>'' @ corner_connector @ ''packages\<newline>    '' @ branch_connector @ ''a\<newline>    root\<newline>```''"
  by code_simp

text \<open>
  With the root project second, its node is a child of the first project's top-level node
  and its line is indented.
\<close>

theorem root_not_first_counterexample:
  "root_project \<in> set [pkg_a_project, root_project] \<and> path root_project = [] \<and>
   createNodeTree [pkg_a_project, root_project] =
   [Node ''packages''
      (Some [Node ''a'' (Some []) (Some ''pkg-a'') False, Node [] (Some []) (Some ''root'') True])
      None False] \<and>
   \<not> (\<exists>n \<in> set (createNodeTree [pkg_a_project, root_project]). root n) \<and>
   generateFolderTree (createNodeTree [pkg_a_project, root_project]) =
   ''```\<newline>'' @ corner_connector @ ''packages\<newline>    '' @ branch_connector @ ''a\<newline>    root\<newline>```''"
proof -
  have "path root_project = []"
    by (simp add: root_project_def example_project_def)
  moreover have "\<not> (\<exists>n \<in> set (createNodeTree [pkg_a_project, root_project]). root n)"
    unfolding tree_root_last by simp
  ultimately show ?thesis
    using tree_root_last tree_text_root_last by simp
qed

text \<open>
  Claim C3, amended. For a single project with the path \<open>""\<close>, the rendered tree is the fence
  around one line, the project's name, and the rendered graph is the fence around the
  header \<open>graph TD\<close> alone: no subgraph and no node declaration.
\<close>

theorem single_root_project:
  "path p = [] \<longrightarrow>
     generateFolderTree (createNodeTree [p]) = ''```\<newline>'' @ project.name p @ ''\<newline>```'' \<and>
     generateDependencyGraph [p] = Inr ''```mermaid\<newline>graph TD\<newline>```''"
proof
  assume root: "path p = []"
  have "createNodeTree [p] = [Node [] (Some []) (Some (project.name p)) True]"
    using root by (simp add: createNodeTree_def tree_step_def)
  then have "generateFolderTree (createNodeTree [p]) = ''```\<newline>'' @ project.name p @ ''\<newline>```''"
    by (simp add: generateFolderTree_def)
  moreover have "generateDependencyGraph [p] = Inr ''```mermaid\<newline>graph TD\<newline>```''"
    using root
    by (simp add: generateDependencyGraph_def group_step_def first_segment_def object_entries_def
        subgraphDependencies_def dependency_step_def)
  ultimately show "generateFolderTree (createNodeTree [p]) = ''```\<newline>'' @ project.name p @ ''\<newline>```'' \<and>
     generateDependencyGraph [p] = Inr ''```mermaid\<newline>graph TD\<newline>```''"
    by simp
qed

theorem single_root_project_witness:
  "path root_project = [] \<and>
   generateFolderTree (createNodeTree [root_project]) = ''```\<newline>root\<newline>```'' \<and>
   generateDependencyGraph [root_project] = Inr ''```mermaid\<newline>graph TD\<newline>```''"
proof -
  have "path root_project = []" "project.name root_project = ''root''"
    by (simp_all add: root_project_def example_project_def)
  with single_root_project [of root_project] show ?thesis
    by simp
qed

text \<open>The graph of the single root project does not declare a node for it.\<close>

theorem single_root_project_counterexample:
  "path root_project = [] \<and>
   generateDependencyGraph [root_project] = Inr ''```mermaid\<newline>graph TD\<newline>```'' \<and>
   \<not> sublist (node_declaration root_project) ''```mermaid\<newline>graph TD\<newline>```'' \<and>
   \<not> sublist ''root'' ''```mermaid\<newline>graph TD\<newline>```''"
  by code_simp

section \<open>Properties of project discovery\<close>

lemma entry_needs_name: "workspaceProjectEntry r \<Longrightarrow> has_nonempty_name r"
  by (auto simp: workspaceProjectEntry_def has_nonempty_name_def z_string_min1_def
      split: json.splits option.splits)

text \<open>
  Claim C9, amended. When a discovered record lacks a non-empty name, the schema check
  fails, the error is caught inside \<open>getPnpmWorkspaceProjects\<close>, which returns the empty
  list, and the action computes neither a tree nor a graph; no error reaches the caller.
  The whole action does the same, unless it has stopped before the discovery at the check
  of the API key.
\<close>

theorem nameless_record_gives_no_projects:
  assumes "output = Some (JArray records)" and "r \<in> set records" and "\<not> has_nonempty_name r"
  shows "getPnpmWorkspaceProjects rootPath output readPackageJson relative = Inr [] \<and>
         action_tree_and_graph rootPath output readPackageJson relative rootPackageJson =
           Inr None \<and>
         command_action ai envKey rootPath output readPackageJson relative rootPackageJson =
           (if ai_truthy ai \<and> envKey = None \<and> \<not> ai_is_string ai
            then Inl (Error ''OPENAI_API_KEY is required for AI enhancement'')
            else Inr None)"
proof -
  have "\<not> workspaceProjectEntry r"
    using assms(3) entry_needs_name by blast
  with assms(2) have "\<not> WorkspaceProjectSchema (JArray records)"
    by (auto simp: WorkspaceProjectSchema_def list_all_iff)
  then have "getPnpmWorkspaceProjects rootPath output readPackageJson relative = Inr []"
    by (simp add: getPnpmWorkspaceProjects_def workspace_projects_try_def assms(1))
  then show ?thesis
    by (simp add: action_tree_and_graph_def command_action_def)
qed

theorem nameless_record_gives_no_projects_witness:
  "Some (JArray [nameless_record]) = Some (JArray [nameless_record]) \<and>
   nameless_record \<in> set [nameless_record] \<and>
   \<not> has_nonempty_name nameless_record \<and>
   getPnpmWorkspaceProjects ''/repo'' (Some (JArray [nameless_record])) (\<lambda>p. None) (\<lambda>r p. p) =
     Inr [] \<and>
   action_tree_and_graph ''/repo'' (Some (JArray [nameless_record])) (\<lambda>p. None) (\<lambda>r p. p)
     None = Inr None \<and>
   command_action AiDefault None ''/repo'' (Some (JArray [nameless_record])) (\<lambda>p. None)
     (\<lambda>r p. p) None = Inr None"
proof -
  have h1: "Some (JArray [nameless_record]) = Some (JArray [nameless_record])" ..
  have h2: "nameless_record \<in> set [nameless_record]" by simp
  have h3: "\<not> has_nonempty_name nameless_record"
    by (simp add: has_nonempty_name_def nameless_record_def)
  from nameless_record_gives_no_projects
    [OF h1 h2 h3, of "''/repo''" "\<lambda>p. None" "\<lambda>r p. p" None AiDefault None] h2 h3
  show ?thesis by (simp add: ai_truthy_def)
qed

lemma nameless_project_graph:
  "generateDependencyGraph [nameless_project] =
   Inr ''```mermaid\<newline>graph TD\<newline>  subgraph packages\<newline>     [\"\"]\<newline>  end\<newline>```''"
  by code_simp

lemma nameless_project_tree:
  "generateFolderTree (createNodeTree [nameless_project]) =
   ''```\<newline>'' @ corner_connector @ ''packages\<newline>    '' @ corner_connector @ ''a\<newline>```''"
  by code_simp

text \<open>
  For a discovered record with an empty name the result is the empty list and not an
  error; and the tree and graph functions accept a project with an empty name.
\<close>

theorem nameless_record_counterexample:
  "\<not> has_nonempty_name nameless_record \<and>
   getPnpmWorkspaceProjects ''/repo'' (Some (JArray [nameless_record])) (\<lambda>p. None) (\<lambda>r p. p) =
     Inr [] \<and>
   \<not> (\<exists>e. getPnpmWorkspaceProjects ''/repo'' (Some (JArray [nameless_record])) (\<lambda>p. None)
            (\<lambda>r p. p) = Inl e) \<and>
   project.name nameless_project = [] \<and>
   generateFolderTree (createNodeTree [nameless_project]) =
     ''```\<newline>'' @ corner_connector @ ''packages\<newline>    '' @ corner_connector @ ''a\<newline>```'' \<and>
   generateDependencyGraph [nameless_project] =
     Inr ''```mermaid\<newline>graph TD\<newline>  subgraph packages\<newline>     [\"\"]\<newline>  end\<newline>```''"
proof -
  have h: "\<not> has_nonempty_name nameless_record"
    by (simp add: has_nonempty_name_def nameless_record_def)
  have "\<not> WorkspaceProjectSchema (JArray [nameless_record])"
    using h entry_needs_name by (auto simp: WorkspaceProjectSchema_def)
  then have r: "getPnpmWorkspaceProjects ''/repo'' (Some (JArray [nameless_record])) (\<lambda>p. None)
      (\<lambda>r p. p) = Inr []"
    by (simp add: getPnpmWorkspaceProjects_def workspace_projects_try_def)
  have n: "project.name nameless_project = []"
    by (simp add: nameless_project_def example_project_def)
  from h r n nameless_project_tree nameless_project_graph show ?thesis
    by simp
qed

end
